theory Spec2Isabelle
  imports Main
begin

section \<open>The focus/break session timer of \<^verbatim>\<open>src/components/Timer.tsx\<close>\<close>

subsection \<open>Data model\<close>

text \<open>
  The component keeps five state variables (\<^verbatim>\<open>useState\<close>, lines 13 to 17):
  \<^verbatim>\<open>timeLeft\<close>, \<^verbatim>\<open>isRunning\<close>, \<^verbatim>\<open>sessionType\<close>, \<^verbatim>\<open>sessionCount\<close> and
  \<^verbatim>\<open>startTime\<close>. The two numbers only ever hold integers far below \<open>2 ^ 53\<close>, where
  JavaScript numbers are exact, so they are \<open>int\<close>. \<^verbatim>\<open>startTime\<close> is \<^verbatim>\<open>Date | null\<close>; a
  \<^verbatim>\<open>Date\<close> is an object and therefore always truthy, so \<^verbatim>\<open>!startTime\<close> is exactly the test
  for \<open>None\<close>. A date is represented by its clock reading, a natural number.
\<close>

datatype SessionType = Focus | Break

record TimerState =
  timeLeft :: int
  isRunning :: bool
  sessionType :: SessionType
  sessionCount :: int
  startTime :: "nat option"

text \<open>The argument of \<^verbatim>\<open>onSessionComplete\<close> (line 9).\<close>

record Session =
  type :: SessionType
  duration :: int
  timestamp :: nat

definition focusDuration :: int where
  "focusDuration = 25 * 60"

definition breakDuration :: int where
  "breakDuration = 5 * 60"

definition longBreakDuration :: int where
  "longBreakDuration = 15 * 60"

subsection \<open>The user commands\<close>

text \<open>
  \<^verbatim>\<open>startTimer\<close> (lines 36 to 41); the argument \<open>now\<close> is the value of \<^verbatim>\<open>new Date()\<close>.
  The callback is renewed whenever \<^verbatim>\<open>startTime\<close> changes (\<^verbatim>\<open>useCallback\<close>, line 41), so
  the \<^verbatim>\<open>startTime\<close> it tests is that of the current state on every path that calls
  it. \<^verbatim>\<open>pauseTimer\<close> reads no state at all.
\<close>

definition startTimer :: "nat \<Rightarrow> TimerState \<Rightarrow> TimerState" where
  "startTimer now s =
     (let s1 = s\<lparr>isRunning := True\<rparr>
      in if startTime s = None then s1\<lparr>startTime := Some now\<rparr> else s1)"

text \<open>\<^verbatim>\<open>pauseTimer\<close> (lines 43 to 45).\<close>

definition pauseTimer :: "TimerState \<Rightarrow> TimerState" where
  "pauseTimer s = s\<lparr>isRunning := False\<rparr>"

text \<open>
  \<^verbatim>\<open>resetTimer\<close> (lines 47 to 51) is a closure: it is created anew by every render
  and reads the \<^verbatim>\<open>sessionType\<close> of the render that created it. \<open>resetTimerOf ty\<close> is
  the closure of a render in which \<^verbatim>\<open>sessionType\<close> was \<open>ty\<close>, applied to the state \<open>s\<close>
  that is current when it runs.
\<close>

definition resetTimerOf :: "SessionType \<Rightarrow> TimerState \<Rightarrow> TimerState" where
  "resetTimerOf ty s =
     s\<lparr>isRunning := False,
       timeLeft := (if ty = Focus then focusDuration else breakDuration),
       startTime := None\<rparr>"

text \<open>
  The Reset button (line 192) calls the closure of the render on display, whose
  captured \<^verbatim>\<open>sessionType\<close> is that of the current state.
\<close>

definition resetTimer :: "TimerState \<Rightarrow> TimerState" where
  "resetTimer s = resetTimerOf (sessionType s) s"

text \<open>
  \<^verbatim>\<open>switchSession\<close> (lines 53 to 65) is a closure in the same way: it reads
  \<^verbatim>\<open>sessionType\<close> and \<^verbatim>\<open>sessionCount\<close> of the render that created it,
  whereas \<^verbatim>\<open>setSessionCount(prev => prev + 1)\<close> is a functional update and reads the
  count that is current when the closure runs. \<open>switchSessionOf ty cnt\<close> is the closure
  of a render in which \<^verbatim>\<open>sessionType\<close> was \<open>ty\<close> and \<^verbatim>\<open>sessionCount\<close> was \<open>cnt\<close>, applied
  to the state \<open>s\<close> that is current when it runs. JavaScript's \<^verbatim>\<open>%\<close> truncates and
  \<open>mod\<close> floors, but both are \<open>0\<close> exactly on the multiples of four.
\<close>

definition switchSessionOf :: "SessionType \<Rightarrow> int \<Rightarrow> TimerState \<Rightarrow> TimerState" where
  "switchSessionOf ty cnt s =
     (if ty = Focus then
        (let isLongBreak = (cnt > 0 \<and> (cnt + 1) mod 4 = 0)
         in s\<lparr>sessionType := Break,
              timeLeft := (if isLongBreak then longBreakDuration else breakDuration),
              sessionCount := sessionCount s + 1,
              isRunning := False,
              startTime := None\<rparr>)
      else
        s\<lparr>sessionType := Focus,
          timeLeft := focusDuration,
          isRunning := False,
          startTime := None\<rparr>)"

text \<open>
  The Switch button (line 197) calls the closure of the render on display, whose
  captured values are those of the current state.
\<close>

definition switchSession :: "TimerState \<Rightarrow> TimerState" where
  "switchSession s = switchSessionOf (sessionType s) (sessionCount s) s"

subsection \<open>The mounted component: interval, deferred switch, key handler, events\<close>

text \<open>
  Beside the state variables, the behaviour depends on
  \<^item> whether the optional prop \<^verbatim>\<open>onSessionComplete\<close> was passed (line 77);
  \<^item> whether the component is still mounted: the cleanup of the effect (line 104)
    clears the interval, and the effect installs one only while
    \<^verbatim>\<open>isRunning && timeLeft > 0\<close> (line 70);
  \<^item> the callbacks handed to \<^verbatim>\<open>setTimeout\<close> at line 96 that have not fired yet. Each
    holds the \<^verbatim>\<open>switchSession\<close> of the render whose effect created the interval, so
    it is recorded by the \<^verbatim>\<open>sessionType\<close> and \<^verbatim>\<open>sessionCount\<close> of that render. All
    have the same delay, so they fire in the order they were scheduled. No handle of
    \<^verbatim>\<open>setTimeout\<close> is kept and the source calls \<^verbatim>\<open>clearTimeout\<close> nowhere;
  \<^item> the \<^verbatim>\<open>handleKeyPress\<close> listener that is installed (lines 108 to 130). It calls
    \<^verbatim>\<open>resetTimer\<close> and \<^verbatim>\<open>switchSession\<close> of the render whose effect installed it, so
    it is recorded by the \<^verbatim>\<open>sessionType\<close> and \<^verbatim>\<open>sessionCount\<close> of that render. Its
    \<^verbatim>\<open>isRunning\<close> and \<^verbatim>\<open>startTimer\<close> are always current, being the dependencies of
    the effect (line 130);
  \<^item> the calls made to \<^verbatim>\<open>onSessionComplete\<close> so far, oldest first.
\<close>

record Component =
  timer :: TimerState
  onSessionComplete :: bool
  mounted :: bool
  timeouts :: "(SessionType \<times> int) list"
  handleKeyPress :: "SessionType \<times> int"
  calls :: "Session list"

text \<open>The state at mount (lines 13 to 17); \<open>cb\<close> tells whether the prop is passed.\<close>

definition mount :: "bool \<Rightarrow> Component" where
  "mount cb =
     \<lparr>timer = \<lparr>timeLeft = 25 * 60, isRunning = False, sessionType = Focus,
               sessionCount = 0, startTime = None\<rparr>,
      onSessionComplete = cb, mounted = True, timeouts = [],
      handleKeyPress = (Focus, 0), calls = []\<rparr>"

text \<open>
  One firing of the interval callback (lines 70 to 101). The effect lists every state
  variable among its dependencies, so the closure that fires holds the values of the
  current state. Without an interval (not mounted, not running, or nothing left)
  nothing fires.
\<close>

definition tick :: "Component \<Rightarrow> Component" where
  "tick c =
     (let s = timer c; prev = timeLeft s
      in if mounted c \<and> isRunning s \<and> timeLeft s > 0 then
           (if prev \<le> 1 then
              (let duration =
                     (if sessionType s = Focus then focusDuration
                      else if sessionCount s > 0 \<and> sessionCount s mod 4 = 0
                           then longBreakDuration else breakDuration)
               in c\<lparr>timer := s\<lparr>isRunning := False, timeLeft := 0\<rparr>,
                    calls := calls c @
                      (case startTime s of
                         Some t \<Rightarrow>
                           if onSessionComplete c
                           then [\<lparr>type = sessionType s, duration = duration - prev,
                                  timestamp = t\<rparr>]
                           else []
                       | None \<Rightarrow> []),
                    timeouts := timeouts c @ [(sessionType s, sessionCount s)]\<rparr>)
            else c\<lparr>timer := s\<lparr>timeLeft := prev - 1\<rparr>\<rparr>)
         else c)"

text \<open>
  The oldest pending \<^verbatim>\<open>setTimeout\<close> callback fires and runs the \<^verbatim>\<open>switchSession\<close> it
  holds. The state setters of an unmounted component have no effect.
\<close>

definition fireTimeout :: "Component \<Rightarrow> Component" where
  "fireTimeout c =
     (case timeouts c of
        [] \<Rightarrow> c
      | (ty, cnt) # rest \<Rightarrow>
          (if mounted c
           then c\<lparr>timeouts := rest, timer := switchSessionOf ty cnt (timer c)\<rparr>
           else c\<lparr>timeouts := rest\<rparr>))"

text \<open>Unmounting runs the cleanup of the effect, \<^verbatim>\<open>clearInterval(interval)\<close> (line 104).\<close>

definition unmount :: "Component \<Rightarrow> Component" where
  "unmount c = c\<lparr>mounted := False\<rparr>"

text \<open>
  The effect of lines 108 to 130 has the dependencies \<^verbatim>\<open>[isRunning, startTimer]\<close>, and
  \<^verbatim>\<open>startTimer\<close> is renewed when \<^verbatim>\<open>startTime\<close> changes (line 41). After a render in
  which neither \<^verbatim>\<open>isRunning\<close> nor \<^verbatim>\<open>startTime\<close> has changed the old listener stays,
  with the \<^verbatim>\<open>resetTimer\<close> and \<^verbatim>\<open>switchSession\<close> it captured; otherwise the listener of
  the new render replaces it. \<^verbatim>\<open>startTime\<close> only ever changes between \<^verbatim>\<open>null\<close> and a
  date, so comparing the values compares the objects. \<open>old\<close> is the component before
  the render, \<open>new\<close> after it.
\<close>

definition keyEffect :: "Component \<Rightarrow> Component \<Rightarrow> Component" where
  "keyEffect old new =
     (if isRunning (timer new) = isRunning (timer old) \<and>
         startTime (timer new) = startTime (timer old)
      then new
      else new\<lparr>handleKeyPress := (sessionType (timer new), sessionCount (timer new))\<rparr>)"

text \<open>
  Everything that can happen to the component: the four operations as the buttons of
  lines 182 to 200 invoke them, with the closures of the render on display; the three
  shortcuts of \<^verbatim>\<open>handleKeyPress\<close>, Ctrl+Space (\<^verbatim>\<open>isRunning ? pauseTimer() : startTimer()\<close>),
  Ctrl+R and Ctrl+B, with the closures of the installed listener; a firing of the
  interval; a firing of a deferred switch; and the unmount. Buttons and listener are
  gone once the component is unmounted. \<open>Start\<close> and \<open>Pause\<close> are the two faces of the
  one button of lines 182 to 190, which shows Pause while the timer runs; they are
  applied here in any state.
\<close>

datatype Command =
  Start nat | Pause | Reset | Switch
  | KeyToggle nat | KeyReset | KeySwitch
  | Tick | Timeout | Unmount

fun act :: "Command \<Rightarrow> Component \<Rightarrow> Component" where
  "act (Start now) c = (if mounted c then c\<lparr>timer := startTimer now (timer c)\<rparr> else c)"
| "act Pause c = (if mounted c then c\<lparr>timer := pauseTimer (timer c)\<rparr> else c)"
| "act Reset c = (if mounted c then c\<lparr>timer := resetTimer (timer c)\<rparr> else c)"
| "act Switch c = (if mounted c then c\<lparr>timer := switchSession (timer c)\<rparr> else c)"
| "act (KeyToggle now) c =
     (if mounted c
      then (if isRunning (timer c) then c\<lparr>timer := pauseTimer (timer c)\<rparr>
            else c\<lparr>timer := startTimer now (timer c)\<rparr>)
      else c)"
| "act KeyReset c =
     (if mounted c then c\<lparr>timer := resetTimerOf (fst (handleKeyPress c)) (timer c)\<rparr> else c)"
| "act KeySwitch c =
     (if mounted c
      then c\<lparr>timer := switchSessionOf (fst (handleKeyPress c)) (snd (handleKeyPress c)) (timer c)\<rparr>
      else c)"
| "act Tick c = tick c"
| "act Timeout c = fireTimeout c"
| "act Unmount c = unmount c"

text \<open>A command, followed by the render it causes.\<close>

definition step :: "Command \<Rightarrow> Component \<Rightarrow> Component" where
  "step cmd c = keyEffect c (act cmd c)"

fun run :: "Command list \<Rightarrow> Component \<Rightarrow> Component" where
  "run [] c = c"
| "run (x # xs) c = run xs (step x c)"

section \<open>Properties\<close>

subsection \<open>Running a list of commands, counting down\<close>

lemmas duration_defs = focusDuration_def breakDuration_def longBreakDuration_def

lemmas step_defs = step_def keyEffect_def

lemma run_append: "run (xs @ ys) c = run ys (run xs c)"
  by (induction xs arbitrary: c) simp_all

lemma run_replicate: "run (replicate n x) c = (step x ^^ n) c"
  by (induction n arbitrary: c) (simp_all add: funpow_swap1)

lemma step_Tick_decrement:
  "mounted c \<Longrightarrow> isRunning (timer c) \<Longrightarrow> 1 < timeLeft (timer c) \<Longrightarrow>
   step Tick c = c\<lparr>timer := (timer c)\<lparr>timeLeft := timeLeft (timer c) - 1\<rparr>\<rparr>"
  by (simp add: step_defs tick_def Let_def)

lemma tick_countdown:
  "mounted c \<Longrightarrow> isRunning (timer c) \<Longrightarrow> int n < timeLeft (timer c) \<Longrightarrow>
   (step Tick ^^ n) c = c\<lparr>timer := (timer c)\<lparr>timeLeft := timeLeft (timer c) - int n\<rparr>\<rparr>"
proof (induction n)
  case 0
  then show ?case by simp
next
  case (Suc n)
  let ?d = "c\<lparr>timer := (timer c)\<lparr>timeLeft := timeLeft (timer c) - int n\<rparr>\<rparr>"
  have ih: "(step Tick ^^ n) c = ?d"
    using Suc by simp
  have "step Tick ?d = ?d\<lparr>timer := (timer ?d)\<lparr>timeLeft := timeLeft (timer ?d) - 1\<rparr>\<rparr>"
    using Suc.prems by (intro step_Tick_decrement) simp_all
  then show ?case
    by (simp add: ih algebra_simps)
qed

lemma focus_session_run:
  assumes m: "mounted c"
    and t: "timer c = \<lparr>timeLeft = 1500, isRunning = False, sessionType = Focus,
                       sessionCount = k, startTime = None\<rparr>"
  shows "run (Start t0 # replicate 1500 Tick) c =
         c\<lparr>timer := \<lparr>timeLeft = 0, isRunning = False, sessionType = Focus,
                      sessionCount = k, startTime = Some t0\<rparr>,
           calls := calls c @
             (if onSessionComplete c
              then [\<lparr>type = Focus, duration = 1499, timestamp = t0\<rparr>] else []),
           timeouts := timeouts c @ [(Focus, k)],
           handleKeyPress := (Focus, k)\<rparr>"
proof -
  let ?c0 = "c\<lparr>timer := \<lparr>timeLeft = 1500, isRunning = True, sessionType = Focus,
                          sessionCount = k, startTime = Some t0\<rparr>,
                handleKeyPress := (Focus, k)\<rparr>"
  let ?c1 = "c\<lparr>timer := \<lparr>timeLeft = 1, isRunning = True, sessionType = Focus,
                          sessionCount = k, startTime = Some t0\<rparr>,
                handleKeyPress := (Focus, k)\<rparr>"
  have started: "step (Start t0) c = ?c0"
    using m t by (simp add: step_defs startTimer_def)
  have "(step Tick ^^ 1499) ?c0 =
      ?c0\<lparr>timer := (timer ?c0)\<lparr>timeLeft := timeLeft (timer ?c0) - int 1499\<rparr>\<rparr>"
    using m by (intro tick_countdown) simp_all
  then have counted: "(step Tick ^^ 1499) ?c0 = ?c1"
    by simp
  have "(1500::nat) = Suc 1499"
    by simp
  then have "(step Tick ^^ 1500) ?c0 = step Tick ((step Tick ^^ 1499) ?c0)"
    by (simp only: funpow.simps o_apply)
  then have "(step Tick ^^ 1500) ?c0 = step Tick ?c1"
    by (simp only: counted)
  also have "step Tick ?c1 =
      c\<lparr>timer := \<lparr>timeLeft = 0, isRunning = False, sessionType = Focus,
                   sessionCount = k, startTime = Some t0\<rparr>,
        calls := calls c @
          (if onSessionComplete c
           then [\<lparr>type = Focus, duration = 1499, timestamp = t0\<rparr>] else []),
        timeouts := timeouts c @ [(Focus, k)],
        handleKeyPress := (Focus, k)\<rparr>"
    using m by (simp add: step_defs tick_def focusDuration_def)
  finally have completed: "(step Tick ^^ 1500) ?c0 =
      c\<lparr>timer := \<lparr>timeLeft = 0, isRunning = False, sessionType = Focus,
                   sessionCount = k, startTime = Some t0\<rparr>,
        calls := calls c @
          (if onSessionComplete c
           then [\<lparr>type = Focus, duration = 1499, timestamp = t0\<rparr>] else []),
        timeouts := timeouts c @ [(Focus, k)],
        handleKeyPress := (Focus, k)\<rparr>" .
  have "run (Start t0 # replicate 1500 Tick) c = (step Tick ^^ 1500) (step (Start t0) c)"
    by (simp only: run.simps run_replicate)
  then show ?thesis
    by (simp only: started completed)
qed

lemma no_call_before_completion:
  assumes "n < 1500"
  shows "calls (run (Start t0 # replicate n Tick) (mount cb)) = []"
proof -
  let ?c0 = "step (Start t0) (mount cb)"
  have "(step Tick ^^ n) ?c0 =
      ?c0\<lparr>timer := (timer ?c0)\<lparr>timeLeft := timeLeft (timer ?c0) - int n\<rparr>\<rparr>"
    using assms by (intro tick_countdown) (simp_all add: step_defs mount_def startTimer_def)
  moreover have "run (Start t0 # replicate n Tick) (mount cb) = (step Tick ^^ n) ?c0"
    by (simp only: run.simps run_replicate)
  ultimately show ?thesis
    by (simp add: step_defs mount_def)
qed

lemma first_focus_session:
  "run (Start t0 # replicate 1500 Tick) (mount cb) =
   \<lparr>timer = \<lparr>timeLeft = 0, isRunning = False, sessionType = Focus, sessionCount = 0,
             startTime = Some t0\<rparr>,
    onSessionComplete = cb, mounted = True, timeouts = [(Focus, 0)],
    handleKeyPress = (Focus, 0),
    calls = (if cb then [\<lparr>type = Focus, duration = 1499, timestamp = t0\<rparr>] else [])\<rparr>"
proof -
  let ?c = "mount cb"
  have "?c\<lparr>timer := \<lparr>timeLeft = 0, isRunning = False, sessionType = Focus,
                    sessionCount = 0, startTime = Some t0\<rparr>,
         calls := calls ?c @
           (if onSessionComplete ?c
            then [\<lparr>type = Focus, duration = 1499, timestamp = t0\<rparr>] else []),
         timeouts := timeouts ?c @ [(Focus, 0)],
         handleKeyPress := (Focus, 0)\<rparr> =
      \<lparr>timer = \<lparr>timeLeft = 0, isRunning = False, sessionType = Focus, sessionCount = 0,
                startTime = Some t0\<rparr>,
       onSessionComplete = cb, mounted = True, timeouts = [(Focus, 0)],
       handleKeyPress = (Focus, 0),
       calls = (if cb then [\<lparr>type = Focus, duration = 1499, timestamp = t0\<rparr>] else [])\<rparr>"
    by (simp add: mount_def)
  moreover have "run (Start t0 # replicate 1500 Tick) ?c =
      ?c\<lparr>timer := \<lparr>timeLeft = 0, isRunning = False, sessionType = Focus,
                    sessionCount = 0, startTime = Some t0\<rparr>,
         calls := calls ?c @
           (if onSessionComplete ?c
            then [\<lparr>type = Focus, duration = 1499, timestamp = t0\<rparr>] else []),
         timeouts := timeouts ?c @ [(Focus, 0)],
         handleKeyPress := (Focus, 0)\<rparr>"
    by (rule focus_session_run) (simp_all add: mount_def)
  ultimately show ?thesis
    by (rule trans [rotated])
qed

subsection \<open>A complete focus session\<close>

text \<open>
  C1: from the initial state with the timer started (\<^verbatim>\<open>isRunning = true\<close>,
  \<^verbatim>\<open>startTime\<close> set), 1500 ticks bring \<^verbatim>\<open>timeLeft\<close> to 0 and make exactly one call of
  \<^verbatim>\<open>onSessionComplete\<close>, at the 1500th tick and not before, with \<^verbatim>\<open>type = Focus\<close>.
  The claim gives the reported duration as 1500. The last tick runs the updater with
  \<^verbatim>\<open>prev = 1\<close> and reports \<^verbatim>\<open>duration - prev\<close> (line 82), which is 1499: the
  theorem evaluates the program on this run.
\<close>

theorem focus_completion_reports_1499:
  "timer (run [Start 0] (mount True)) =
     \<lparr>timeLeft = 1500, isRunning = True, sessionType = Focus, sessionCount = 0,
      startTime = Some 0\<rparr> \<and>
   calls (run (Start 0 # replicate 1499 Tick) (mount True)) = [] \<and>
   timeLeft (timer (run (Start 0 # replicate 1500 Tick) (mount True))) = 0 \<and>
   calls (run (Start 0 # replicate 1500 Tick) (mount True)) =
     [\<lparr>type = Focus, duration = 1499, timestamp = 0\<rparr>]"
proof -
  have "timer (run [Start 0] (mount True)) =
     \<lparr>timeLeft = 1500, isRunning = True, sessionType = Focus, sessionCount = 0,
      startTime = Some 0\<rparr>"
    by (simp add: step_defs mount_def startTimer_def)
  moreover have "calls (run (Start 0 # replicate 1499 Tick) (mount True)) = []"
    by (rule no_call_before_completion) simp
  moreover have "timeLeft (timer (run (Start 0 # replicate 1500 Tick) (mount True))) = 0"
    by (simp only: first_focus_session) simp
  moreover have "calls (run (Start 0 # replicate 1500 Tick) (mount True)) =
     [\<lparr>type = Focus, duration = 1499, timestamp = 0\<rparr>]"
    by (simp only: first_focus_session) simp
  ultimately show ?thesis
    by (intro conjI)
qed

subsection \<open>Reset\<close>

text \<open>
  The Reset button, in any state: it stops the timer, clears \<^verbatim>\<open>startTime\<close> and sets
  \<^verbatim>\<open>timeLeft\<close> to 1500 in a focus session and to 300 in a break, also when the break
  is a long one (900 seconds) that is being reset.
\<close>

lemma resetTimer_button:
  "isRunning (resetTimer s) = False \<and>
   startTime (resetTimer s) = None \<and>
   timeLeft (resetTimer s) = (if sessionType s = Focus then 1500 else 300) \<and>
   timeLeft (resetTimer \<lparr>timeLeft = longBreakDuration, isRunning = True, sessionType = Break,
                         sessionCount = 4, startTime = Some t\<rparr>) = 300 \<and>
   longBreakDuration = 900"
  by (simp add: resetTimer_def resetTimerOf_def duration_defs)

text \<open>
  C5: for every state, \<^verbatim>\<open>reset()\<close> stops the timer, clears \<^verbatim>\<open>startTime\<close> and sets
  \<^verbatim>\<open>timeLeft\<close> to 1500 when the session is a focus session and to 300 when it is a
  break. The Reset button does (\<open>resetTimer_button\<close>). Ctrl+R does not: the key
  listener is renewed only when \<^verbatim>\<open>isRunning\<close> or \<^verbatim>\<open>startTime\<close> changes, and the Switch
  button pressed on the freshly mounted timer changes neither. The listener then
  still holds the \<^verbatim>\<open>resetTimer\<close> of the focus render, and Ctrl+R sets \<^verbatim>\<open>timeLeft\<close> to
  1500 in the break, where the button sets 300.
\<close>

theorem stale_key_reset:
  "(let c = run [Switch] (mount True)
    in timer c = \<lparr>timeLeft = 300, isRunning = False, sessionType = Break, sessionCount = 1,
                  startTime = None\<rparr> \<and>
       handleKeyPress c = (Focus, 0) \<and>
       timer (step KeyReset c) =
         \<lparr>timeLeft = 1500, isRunning = False, sessionType = Break, sessionCount = 1,
          startTime = None\<rparr> \<and>
       timer (step Reset c) =
         \<lparr>timeLeft = 300, isRunning = False, sessionType = Break, sessionCount = 1,
          startTime = None\<rparr>)"
  by (simp add: step_defs mount_def switchSession_def switchSessionOf_def resetTimer_def
      resetTimerOf_def duration_defs)

text \<open>
  C10: for every state, \<^verbatim>\<open>reset()\<close> leaves \<^verbatim>\<open>sessionType\<close> and \<^verbatim>\<open>sessionCount\<close> as they
  were; so does the closure of any other render, as the key listener may hold.
\<close>

theorem resetTimer_frame:
  "sessionType (resetTimer s) = sessionType s \<and> sessionCount (resetTimer s) = sessionCount s \<and>
   sessionType (resetTimerOf ty s) = sessionType s \<and>
   sessionCount (resetTimerOf ty s) = sessionCount s"
  by (simp add: resetTimer_def resetTimerOf_def)

subsection \<open>Pause and start\<close>

lemmas command_defs =
  startTimer_def pauseTimer_def resetTimer_def resetTimerOf_def switchSession_def
  switchSessionOf_def tick_def fireTimeout_def unmount_def

lemma step_running_has_startTime:
  "(isRunning (timer c) \<Longrightarrow> startTime (timer c) \<noteq> None) \<Longrightarrow>
   isRunning (timer (step cmd c)) \<Longrightarrow> startTime (timer (step cmd c)) \<noteq> None"
  by (cases cmd) (auto simp: step_defs command_defs Let_def split: if_splits list.splits)

lemma run_running_has_startTime:
  "(isRunning (timer c) \<Longrightarrow> startTime (timer c) \<noteq> None) \<Longrightarrow>
   isRunning (timer (run cmds c)) \<Longrightarrow> startTime (timer (run cmds c)) \<noteq> None"
proof (induction cmds arbitrary: c)
  case Nil
  then show ?case by simp
next
  case (Cons cmd cmds)
  have "isRunning (timer (step cmd c)) \<Longrightarrow> startTime (timer (step cmd c)) \<noteq> None"
    using Cons.prems(1) by (rule step_running_has_startTime)
  with Cons.IH [of "step cmd c"] Cons.prems(2) show ?case
    by simp
qed

text \<open>Whenever the timer is running, \<^verbatim>\<open>startTime\<close> is set.\<close>

lemma running_has_startTime:
  "isRunning (timer (run cmds (mount cb))) \<Longrightarrow> startTime (timer (run cmds (mount cb))) \<noteq> None"
  by (rule run_running_has_startTime) (simp_all add: mount_def)

text \<open>So pausing the running timer and starting it again gives back the state it was in.\<close>

lemma resume_restores_running_state:
  assumes "isRunning (timer (run cmds (mount cb)))"
  shows "startTimer now (pauseTimer (timer (run cmds (mount cb)))) = timer (run cmds (mount cb))"
proof -
  have "startTime (timer (run cmds (mount cb))) \<noteq> None"
    using assms by (rule running_has_startTime)
  with assms show ?thesis
    by (cases "timer (run cmds (mount cb))") (auto simp: startTimer_def pauseTimer_def Let_def)
qed

text \<open>
  C6: for every state, \<^verbatim>\<open>pause()\<close> sets \<^verbatim>\<open>isRunning = false\<close> and changes no other
  field. So \<^verbatim>\<open>start()\<close> followed at once by \<^verbatim>\<open>pause()\<close> leaves \<^verbatim>\<open>timeLeft\<close> as it was.
  A \<^verbatim>\<open>start()\<close> after a pause sets the timer running again, with the same \<^verbatim>\<open>timeLeft\<close>,
  session type and count, and does to \<^verbatim>\<open>startTime\<close> what it would have done without
  the pause: it keeps the one that is set and sets the current time when there is
  none. A timer that was started, then paused, then started again is in the very state
  in which the first start left it: running, with the \<^verbatim>\<open>timeLeft\<close> and the \<^verbatim>\<open>startTime\<close>
  it had before the pause, and not with the time of the second start.
\<close>

theorem pauseTimer_frame:
  "isRunning (pauseTimer s) = False \<and>
   timeLeft (pauseTimer s) = timeLeft s \<and>
   startTime (pauseTimer s) = startTime s \<and>
   sessionType (pauseTimer s) = sessionType s \<and>
   sessionCount (pauseTimer s) = sessionCount s \<and>
   TimerState.more (pauseTimer s) = TimerState.more s \<and>
   timeLeft (pauseTimer (startTimer now s)) = timeLeft s \<and>
   isRunning (startTimer now' (pauseTimer s)) = True \<and>
   timeLeft (startTimer now' (pauseTimer s)) = timeLeft s \<and>
   sessionType (startTimer now' (pauseTimer s)) = sessionType s \<and>
   sessionCount (startTimer now' (pauseTimer s)) = sessionCount s \<and>
   startTime (startTimer now' (pauseTimer s)) = startTime (startTimer now' s) \<and>
   startTime (startTimer now s) = (case startTime s of None \<Rightarrow> Some now | Some t \<Rightarrow> Some t) \<and>
   isRunning (startTimer now s) = True \<and>
   isRunning (startTimer now' (pauseTimer (startTimer now s))) = True \<and>
   timeLeft (startTimer now' (pauseTimer (startTimer now s))) = timeLeft s \<and>
   startTime (startTimer now' (pauseTimer (startTimer now s))) = startTime (startTimer now s) \<and>
   startTimer now' (pauseTimer (startTimer now s)) = startTimer now s"
  by (cases s) (simp add: pauseTimer_def startTimer_def Let_def split: option.split)

text \<open>
  C7: \<^verbatim>\<open>start()\<close> on a running timer whose start time is set changes nothing, and
  \<^verbatim>\<open>pause()\<close> on a timer that is not running changes nothing; both are total, so
  neither can fail. A second \<^verbatim>\<open>start()\<close> or \<^verbatim>\<open>pause()\<close> in a row never has an effect.
\<close>

theorem startTimer_pauseTimer_idempotent:
  "(isRunning s \<and> startTime s \<noteq> None \<longrightarrow> startTimer now s = s) \<and>
   (\<not> isRunning s \<longrightarrow> pauseTimer s = s) \<and>
   startTimer now' (startTimer now s) = startTimer now s \<and>
   pauseTimer (pauseTimer s) = pauseTimer s"
  by (cases s) (simp add: pauseTimer_def startTimer_def Let_def)

theorem startTimer_pauseTimer_idempotent_witness:
  "startTimer 20 \<lparr>timeLeft = 1490, isRunning = True, sessionType = Focus, sessionCount = 0,
                  startTime = Some 3\<rparr> =
     \<lparr>timeLeft = 1490, isRunning = True, sessionType = Focus, sessionCount = 0,
      startTime = Some 3\<rparr> \<and>
   pauseTimer \<lparr>timeLeft = 1490, isRunning = False, sessionType = Focus, sessionCount = 0,
               startTime = Some 3\<rparr> =
     \<lparr>timeLeft = 1490, isRunning = False, sessionType = Focus, sessionCount = 0,
      startTime = Some 3\<rparr>"
  using startTimer_pauseTimer_idempotent
    [of "\<lparr>timeLeft = 1490, isRunning = True, sessionType = Focus, sessionCount = 0,
          startTime = Some 3\<rparr>" 20 20]
    startTimer_pauseTimer_idempotent
    [of "\<lparr>timeLeft = 1490, isRunning = False, sessionType = Focus, sessionCount = 0,
          startTime = Some 3\<rparr>" 20 20]
  by simp

subsection \<open>The bounds of the countdown\<close>

lemma step_timeLeft_bounds:
  "0 \<le> timeLeft (timer c) \<and> timeLeft (timer c) \<le> 1500 \<Longrightarrow>
   0 \<le> timeLeft (timer (step cmd c)) \<and> timeLeft (timer (step cmd c)) \<le> 1500"
  by (cases cmd) (auto simp: step_defs command_defs Let_def duration_defs split: list.splits)

lemma run_timeLeft_bounds:
  "0 \<le> timeLeft (timer c) \<and> timeLeft (timer c) \<le> 1500 \<Longrightarrow>
   0 \<le> timeLeft (timer (run cmds c)) \<and> timeLeft (timer (run cmds c)) \<le> 1500"
proof (induction cmds arbitrary: c)
  case Nil
  then show ?case by simp
next
  case (Cons cmd cmds)
  from Cons.prems have "0 \<le> timeLeft (timer (step cmd c)) \<and> timeLeft (timer (step cmd c)) \<le> 1500"
    by (rule step_timeLeft_bounds)
  then show ?case
    using Cons.IH [of "step cmd c"] by simp
qed

text \<open>
  C3: in every state reached from the initial one by any sequence of \<^verbatim>\<open>start()\<close>,
  \<^verbatim>\<open>pause()\<close>, \<^verbatim>\<open>reset()\<close>, \<^verbatim>\<open>switchSession()\<close> and ticks (by button or by key, and of
  deferred switches and the unmount as well), \<^verbatim>\<open>timeLeft\<close> lies between 0 and
  \<open>max focusDuration longBreakDuration\<close>, which is 1500.
\<close>

theorem timeLeft_bounds:
  "0 \<le> timeLeft (timer (run cmds (mount cb))) \<and>
   timeLeft (timer (run cmds (mount cb))) \<le> max focusDuration longBreakDuration \<and>
   max focusDuration longBreakDuration = 1500"
proof -
  have "0 \<le> timeLeft (timer (run cmds (mount cb))) \<and>
        timeLeft (timer (run cmds (mount cb))) \<le> 1500"
    by (rule run_timeLeft_bounds) (simp add: mount_def)
  then show ?thesis
    by (simp add: duration_defs)
qed

subsection \<open>Completion events\<close>

text \<open>
  C4: a manual \<^verbatim>\<open>switchSession()\<close> never calls \<^verbatim>\<open>onSessionComplete\<close>, in whatever
  state it is invoked. No command but a tick does, and a tick that does is the one that
  brings \<^verbatim>\<open>timeLeft\<close> from a positive value to 0; it makes exactly one call.
\<close>

theorem switchSession_emits_nothing:
  "calls (step Switch c) = calls c \<and>
   (cmd \<noteq> Tick \<longrightarrow> calls (step cmd c) = calls c) \<and>
   (calls (step Tick c) \<noteq> calls c \<longrightarrow>
      0 < timeLeft (timer c) \<and> timeLeft (timer (step Tick c)) = 0 \<and>
      (\<exists>e. calls (step Tick c) = calls c @ [e]))"
proof -
  have "calls (step Switch c) = calls c"
    by (simp add: step_defs)
  moreover have "cmd \<noteq> Tick \<longrightarrow> calls (step cmd c) = calls c"
    by (cases cmd) (simp_all add: step_defs fireTimeout_def unmount_def split: list.splits)
  moreover have "calls (step Tick c) \<noteq> calls c \<longrightarrow>
      0 < timeLeft (timer c) \<and> timeLeft (timer (step Tick c)) = 0 \<and>
      (\<exists>e. calls (step Tick c) = calls c @ [e])"
    by (auto simp: step_defs tick_def Let_def split: if_splits option.splits)
  ultimately show ?thesis
    by blast
qed

theorem switchSession_emits_nothing_witness:
  "Reset \<noteq> Tick \<and>
   calls (step Reset
     \<lparr>timer = \<lparr>timeLeft = 1, isRunning = True, sessionType = Break, sessionCount = 1,
               startTime = Some 0\<rparr>,
      onSessionComplete = True, mounted = True, timeouts = [],
      handleKeyPress = (Break, 1), calls = []\<rparr>) = [] \<and>
   calls (step Tick
     \<lparr>timer = \<lparr>timeLeft = 1, isRunning = True, sessionType = Break, sessionCount = 1,
               startTime = Some 0\<rparr>,
      onSessionComplete = True, mounted = True, timeouts = [],
      handleKeyPress = (Break, 1), calls = []\<rparr>) \<noteq> [] \<and>
   timeLeft (timer (step Tick
     \<lparr>timer = \<lparr>timeLeft = 1, isRunning = True, sessionType = Break, sessionCount = 1,
               startTime = Some 0\<rparr>,
      onSessionComplete = True, mounted = True, timeouts = [],
      handleKeyPress = (Break, 1), calls = []\<rparr>)) = 0"
  using switchSession_emits_nothing
    [of "\<lparr>timer = \<lparr>timeLeft = 1, isRunning = True, sessionType = Break, sessionCount = 1,
                   startTime = Some 0\<rparr>,
          onSessionComplete = True, mounted = True, timeouts = [],
          handleKeyPress = (Break, 1), calls = []\<rparr>" Reset]
  by (simp add: step_defs tick_def)

subsection \<open>Session transitions\<close>

text \<open>
  The Switch button, in any state: from a focus session to a break, long exactly when
  the count before the transition is positive and its successor a multiple of four,
  with the count incremented; from a break to a focus session of 1500 seconds; either
  way the timer is stopped and \<^verbatim>\<open>startTime\<close> cleared.
\<close>

lemma switchSession_from_Focus:
  "sessionType s = Focus \<Longrightarrow>
   switchSession s =
     s\<lparr>sessionType := Break,
       timeLeft := (if 0 < sessionCount s \<and> (sessionCount s + 1) mod 4 = 0 then 900 else 300),
       sessionCount := sessionCount s + 1,
       isRunning := False,
       startTime := None\<rparr>"
  by (simp add: switchSession_def switchSessionOf_def duration_defs)

lemma switchSession_from_Break:
  "sessionType s = Break \<Longrightarrow>
   switchSession s =
     s\<lparr>sessionType := Focus, timeLeft := 1500, isRunning := False, startTime := None\<rparr>"
  by (simp add: switchSession_def switchSessionOf_def duration_defs)

text \<open>
  A deferred switch does the same as the button when the session type and count have
  not changed since the tick that scheduled it.
\<close>

lemma fireTimeout_undisturbed:
  "mounted c \<Longrightarrow> timeouts c = (sessionType (timer c), sessionCount (timer c)) # rest \<Longrightarrow>
   timer (fireTimeout c) = switchSession (timer c)"
  by (simp add: fireTimeout_def switchSession_def)

text \<open>
  Ctrl+B does not always: pressed twice on the freshly mounted timer, the second press
  still runs the \<^verbatim>\<open>switchSession\<close> of the focus render and goes from the break to a
  break, with the count 2.
\<close>

lemma stale_key_switch:
  "timer (run [KeySwitch, KeySwitch] (mount cb)) =
     \<lparr>timeLeft = 300, isRunning = False, sessionType = Break, sessionCount = 2,
      startTime = None\<rparr>"
  by (simp add: step_defs mount_def switchSessionOf_def duration_defs)

lemma two_rounds:
  "run [Switch, Switch, Switch, Switch] (mount cb) =
     (mount cb)\<lparr>timer := \<lparr>timeLeft = 1500, isRunning = False, sessionType = Focus,
                          sessionCount = 2, startTime = None\<rparr>\<rparr>"
  by (simp add: step_defs mount_def switchSession_def switchSessionOf_def duration_defs)

lemma third_focus_session_then_two_switches:
  "run ([Switch, Switch, Switch, Switch] @ (Start 0 # replicate 1500 Tick) @ [Switch, Switch])
     (mount True) =
   \<lparr>timer = \<lparr>timeLeft = 1500, isRunning = False, sessionType = Focus, sessionCount = 3,
             startTime = None\<rparr>,
    onSessionComplete = True, mounted = True, timeouts = [(Focus, 2)],
    handleKeyPress = (Break, 3),
    calls = [\<lparr>type = Focus, duration = 1499, timestamp = 0\<rparr>]\<rparr>"
proof -
  let ?c = "(mount True)\<lparr>timer := \<lparr>timeLeft = 1500, isRunning = False, sessionType = Focus,
                                   sessionCount = 2, startTime = None\<rparr>\<rparr>"
  let ?d = "\<lparr>timer = \<lparr>timeLeft = 0, isRunning = False, sessionType = Focus, sessionCount = 2,
                      startTime = Some 0\<rparr>,
             onSessionComplete = True, mounted = True, timeouts = [(Focus, 2)],
             handleKeyPress = (Focus, 2),
             calls = [\<lparr>type = Focus, duration = 1499, timestamp = 0\<rparr>]\<rparr>"
  have "?c\<lparr>timer := \<lparr>timeLeft = 0, isRunning = False, sessionType = Focus,
                    sessionCount = 2, startTime = Some 0\<rparr>,
         calls := calls ?c @
           (if onSessionComplete ?c
            then [\<lparr>type = Focus, duration = 1499, timestamp = 0\<rparr>] else []),
         timeouts := timeouts ?c @ [(Focus, 2)],
         handleKeyPress := (Focus, 2)\<rparr> = ?d"
    by (simp add: mount_def)
  moreover have "run (Start 0 # replicate 1500 Tick) ?c =
      ?c\<lparr>timer := \<lparr>timeLeft = 0, isRunning = False, sessionType = Focus,
                    sessionCount = 2, startTime = Some 0\<rparr>,
         calls := calls ?c @
           (if onSessionComplete ?c
            then [\<lparr>type = Focus, duration = 1499, timestamp = 0\<rparr>] else []),
         timeouts := timeouts ?c @ [(Focus, 2)],
         handleKeyPress := (Focus, 2)\<rparr>"
    by (rule focus_session_run) (simp_all add: mount_def)
  ultimately have session: "run (Start 0 # replicate 1500 Tick) ?c = ?d"
    by (rule trans [rotated])
  have switches: "run [Switch, Switch] ?d =
      \<lparr>timer = \<lparr>timeLeft = 1500, isRunning = False, sessionType = Focus, sessionCount = 3,
                startTime = None\<rparr>,
       onSessionComplete = True, mounted = True, timeouts = [(Focus, 2)],
       handleKeyPress = (Break, 3),
       calls = [\<lparr>type = Focus, duration = 1499, timestamp = 0\<rparr>]\<rparr>"
    by (simp add: step_defs switchSession_def switchSessionOf_def duration_defs)
  show ?thesis
    by (simp only: run_append two_rounds session switches)
qed

text \<open>
  C2: a focus-to-break transition, by the button or by the automatic switch after a
  natural completion, gives a long break exactly when the count before the transition
  is positive and its successor is a multiple of four. The button does
  (\<open>switchSession_from_Focus\<close>), and so does the automatic switch when nothing
  happened in the second before it fires (\<open>fireTimeout_undisturbed\<close>). But the deferred
  callback holds the \<^verbatim>\<open>switchSession\<close> of the render in which the countdown ended:
  after two switches, the third focus session is run to its end, and the Switch button
  is pressed twice before the deferred switch fires. The state is then a focus session
  with \<^verbatim>\<open>sessionCount = 3\<close>, from which the button gives the long break of 900 seconds;
  the deferred switch still decides with the count 2 it captured and gives 300.
\<close>

theorem deferred_switch_stale_count:
  "(let c = run ([Switch, Switch, Switch, Switch] @ (Start 0 # replicate 1500 Tick) @
                  [Switch, Switch]) (mount True)
    in timer c = \<lparr>timeLeft = 1500, isRunning = False, sessionType = Focus, sessionCount = 3,
                  startTime = None\<rparr> \<and>
       timeouts c = [(Focus, 2)] \<and>
       timer (step Timeout c) =
         \<lparr>timeLeft = 300, isRunning = False, sessionType = Break, sessionCount = 4,
          startTime = None\<rparr> \<and>
       timer (step Switch c) =
         \<lparr>timeLeft = 900, isRunning = False, sessionType = Break, sessionCount = 4,
          startTime = None\<rparr>)"
  by (simp only: Let_def third_focus_session_then_two_switches)
     (simp add: step_defs fireTimeout_def switchSession_def switchSessionOf_def duration_defs)

subsection \<open>The session count\<close>

text \<open>
  What holds of the count: starting, pausing, resetting, a tick and the unmount leave
  it alone; the button increments it by one from a focus session and leaves it alone
  from a break; no step decreases it or adds more than one; it is never negative.
\<close>

lemma sessionCount_unchanged:
  "sessionCount (startTimer now s) = sessionCount s \<and>
   sessionCount (pauseTimer s) = sessionCount s \<and>
   sessionCount (resetTimerOf ty s) = sessionCount s \<and>
   sessionCount (resetTimer s) = sessionCount s \<and>
   sessionCount (timer (tick c)) = sessionCount (timer c) \<and>
   sessionCount (timer (unmount c)) = sessionCount (timer c)"
  by (simp add: startTimer_def pauseTimer_def resetTimer_def resetTimerOf_def tick_def
      unmount_def Let_def)

lemma switchSession_sessionCount:
  "sessionCount (switchSession s) =
     (if sessionType s = Focus then sessionCount s + 1 else sessionCount s)"
  by (simp add: switchSession_def switchSessionOf_def)

lemma step_sessionCount:
  "sessionCount (timer c) \<le> sessionCount (timer (step cmd c)) \<and>
   sessionCount (timer (step cmd c)) \<le> sessionCount (timer c) + 1"
  by (cases cmd)
     (auto simp: step_defs sessionCount_unchanged switchSession_sessionCount fireTimeout_def
        switchSessionOf_def split: list.splits)

lemma run_sessionCount_mono: "sessionCount (timer c) \<le> sessionCount (timer (run cmds c))"
proof (induction cmds arbitrary: c)
  case Nil
  show ?case by simp
next
  case (Cons cmd cmds)
  have "sessionCount (timer c) \<le> sessionCount (timer (step cmd c))"
    using step_sessionCount [of c cmd] by simp
  also have "\<dots> \<le> sessionCount (timer (run cmds (step cmd c)))"
    by (rule Cons.IH)
  finally show ?case by simp
qed

lemma sessionCount_nonneg: "0 \<le> sessionCount (timer (run cmds (mount cb)))"
  using run_sessionCount_mono [of "mount cb" cmds] by (simp add: mount_def)

text \<open>
  C8: \<^verbatim>\<open>sessionCount\<close> is never negative, never decreases, and changes only in a
  focus-to-break transition, by exactly one, once per completed focus session. The
  count is indeed never negative and never decreases (\<open>sessionCount_nonneg\<close>,
  \<open>step_sessionCount\<close>). But one focus session can be counted twice: the first focus
  session is run to its end and the Switch button is pressed before the deferred switch
  fires. The button makes the transition to the break and the count 1. The deferred
  callback still holds the \<^verbatim>\<open>switchSession\<close> of the focus render, so it takes the focus
  branch again: the state goes from a break to a break and the count from 1 to 2,
  after a single completed focus session.
\<close>

theorem deferred_switch_counts_twice:
  "(let c = run ((Start 0 # replicate 1500 Tick) @ [Switch]) (mount True)
    in sessionType (timer c) = Break \<and> sessionCount (timer c) = 1 \<and>
       timeouts c = [(Focus, 0)] \<and>
       sessionType (timer (step Timeout c)) = Break \<and>
       sessionCount (timer (step Timeout c)) = 2 \<and>
       calls (step Timeout c) = [\<lparr>type = Focus, duration = 1499, timestamp = 0\<rparr>])"
  by (simp only: Let_def run_append first_focus_session)
     (simp add: step_defs fireTimeout_def switchSession_def switchSessionOf_def duration_defs)

subsection \<open>Unmounting\<close>

text \<open>After the unmount no tick fires any more, and the pending deferred switches stay.\<close>

lemma unmount_clears_interval: "tick (unmount c) = unmount c"
  by (simp add: tick_def unmount_def)

lemma unmount_keeps_timeouts: "timeouts (unmount c) = timeouts c"
  by (simp add: unmount_def)

text \<open>
  C9: unmounting the running timer cancels the pending interval and any pending
  deferred switch, so that nothing changes the state afterwards. The cleanup of the
  effect is \<^verbatim>\<open>clearInterval(interval)\<close> alone. In the run below the first focus session
  ends, and within the second before the deferred switch fires the user switches to
  the break and starts it, so that the timer runs with an interval and a deferred
  switch pending. After the unmount a tick does nothing, the state is as it was, but
  the deferred switch is still pending and fires.
\<close>

theorem unmount_keeps_deferred_switch:
  "(let c = run ((Start 0 # replicate 1500 Tick) @ [Switch, Start 7]) (mount True)
    in isRunning (timer c) \<and> timeLeft (timer c) = 300 \<and> mounted c \<and>
       timeLeft (timer (step Tick c)) = 299 \<and>
       timeouts c = [(Focus, 0)] \<and>
       step Tick (step Unmount c) = step Unmount c \<and>
       timer (step Unmount c) = timer c \<and>
       timeouts (step Unmount c) = [(Focus, 0)] \<and>
       timeouts (step Timeout (step Unmount c)) = [] \<and>
       timer (step Timeout (step Unmount c)) = timer c)"
  by (simp only: Let_def run_append first_focus_session)
     (simp add: step_defs fireTimeout_def switchSession_def switchSessionOf_def duration_defs
        startTimer_def tick_def unmount_def)

end
